theory Spec2Isabelle
  imports Main "HOL-Library.Log_Nat"
begin

section \<open>Python arithmetic used by the script\<close>

text \<open>
  \<^verbatim>\<open>src/app.py\<close> is a Streamlit script: five sidebar widgets deliver Python \<^verbatim>\<open>int\<close>s
  and lines 30 to 69 derive totals, two ROI percentages and the columns of a yearly table
  from them. Integers are unbounded (\<^typ>\<open>int\<close>). The three ROI expressions have the
  shape \<^verbatim>\<open>(a / b) * 100\<close> with \<^verbatim>\<open>a\<close>, \<^verbatim>\<open>b\<close> of type \<^verbatim>\<open>int\<close>: true division of two
  ints raises \<^verbatim>\<open>ZeroDivisionError\<close> for \<^verbatim>\<open>b == 0\<close>, raises \<^verbatim>\<open>OverflowError\<close> when the
  quotient is too large for a float and otherwise returns the binary64 number nearest to
  the exact quotient (ties to even); the product with \<^verbatim>\<open>100\<close> is an IEEE 754 binary64
  multiplication, rounded the same way, with infinity in place of an exception.

  A finite binary64 number is represented by the rational it denotes, so \<^verbatim>\<open>0.0\<close> and
  \<^verbatim>\<open>-0.0\<close>, which Python's \<^verbatim>\<open>==\<close> identifies, are one value.
\<close>

datatype error = ZeroDivisionError | OverflowError

datatype pyfloat = Finite rat | PosInf | NegInf

text \<open>Rounding a rational to the nearest integer, ties to the even one.\<close>

definition round_half_even :: "rat \<Rightarrow> int" where
  "round_half_even x =
     (let f = \<lfloor>x\<rfloor>; d = x - of_int f
      in if d < 1/2 then f
         else if 1/2 < d then f + 1
         else if even f then f else f + 1)"

text \<open>
  The binary exponent of a positive rational \<open>x\<close>: the \<open>e\<close> with
  \<open>2 powi e \<le> x < 2 powi (e + 1)\<close>, found from the bit lengths of numerator and
  denominator.
\<close>

definition floor_log2 :: "rat \<Rightarrow> int" where
  "floor_log2 x =
     (let (p, q) = quotient_of x;
          d = bitlen p - bitlen q
      in if 2 powi d \<le> x then d else d - 1)"

text \<open>
  Rounding to binary64, to nearest with ties to even: 53 significant bits for a
  magnitude of at least \<open>2 powi - 1022\<close>, multiples of \<open>2 powi - 1074\<close> below it
  (subnormal numbers), and \<open>None\<close> when the rounded magnitude reaches \<open>2 ^ 1024\<close>
  (no finite binary64 number is that large).
\<close>

definition round64 :: "rat \<Rightarrow> rat option" where
  "round64 x =
     (if x = 0 then Some 0
      else let k = max (floor_log2 \<bar>x\<bar>) (- 1022) - 52;
               r = of_int (round_half_even (\<bar>x\<bar> / 2 powi k)) * 2 powi k
           in if 2 ^ 1024 \<le> r then None else Some (sgn x * r))"

text \<open>\<^verbatim>\<open>a / b\<close> on two Python ints.\<close>

definition int_truediv :: "int \<Rightarrow> int \<Rightarrow> error + rat" where
  "int_truediv a b =
     (if b = 0 then Inl ZeroDivisionError
      else case round64 (of_int a / of_int b) of
             None \<Rightarrow> Inl OverflowError
           | Some r \<Rightarrow> Inr r)"

text \<open>\<^verbatim>\<open>x * y\<close> on two finite Python floats; it never raises.\<close>

definition float_mul :: "rat \<Rightarrow> rat \<Rightarrow> pyfloat" where
  "float_mul x y =
     (case round64 (x * y) of
        Some r \<Rightarrow> Finite r
      | None \<Rightarrow> if 0 < x * y then PosInf else NegInf)"

text \<open>
  The expression \<^verbatim>\<open>(a / b) * 100\<close> of lines 37, 38 and 61; the int \<^verbatim>\<open>100\<close> converts to
  the float \<^verbatim>\<open>100.0\<close> exactly.
\<close>

definition percent_of :: "int \<Rightarrow> int \<Rightarrow> error + pyfloat" where
  "percent_of a b =
     (case int_truediv a b of
        Inl e \<Rightarrow> Inl e
      | Inr q \<Rightarrow> Inr (float_mul q 100))"

text \<open>
  A float result lies within floating-point tolerance of an exact value: it is finite
  and its relative error is at most \<open>1 / 2 ^ 51\<close> (four units of binary64 rounding
  error).
\<close>

definition within_tolerance :: "pyfloat \<Rightarrow> rat \<Rightarrow> bool" where
  "within_tolerance f x =
     (case f of Finite r \<Rightarrow> \<bar>r - x\<bar> \<le> \<bar>x\<bar> / 2 ^ 51 | PosInf \<Rightarrow> False | NegInf \<Rightarrow> False)"

section \<open>The script\<close>

text \<open>The five values read from the sidebar (lines 24 to 28).\<close>

record inputs =
  num_businesses :: int
  purchase_price :: int
  annual_cost :: int
  resale_value :: int
  resale_year :: int


text \<open>Valid inputs in the sense of the specification: all five are positive.\<close>

definition valid_input :: "inputs \<Rightarrow> bool" where
  "valid_input i \<longleftrightarrow>
     0 < num_businesses i \<and> 0 < purchase_price i \<and> 0 < annual_cost i \<and>
     0 < resale_value i \<and> 0 < resale_year i"

text \<open>
  Inputs of bounded size: each is at most \<open>2 ^ 64\<close>, far beyond the widgets' ranges
  (the specification gives every input a bounded range). On valid inputs of this size no
  quotient of the script leaves the range of normal binary64 numbers.
\<close>

definition bounded_input :: "inputs \<Rightarrow> bool" where
  "bounded_input i \<longleftrightarrow>
     num_businesses i \<le> 2 ^ 64 \<and> purchase_price i \<le> 2 ^ 64 \<and> annual_cost i \<le> 2 ^ 64 \<and>
     resale_value i \<le> 2 ^ 64 \<and> resale_year i \<le> 2 ^ 64"

subsection \<open>Derived values (lines 30 to 38)\<close>

definition total_years :: "inputs \<Rightarrow> int" where
  "total_years i = resale_year i"

definition initial_investment :: "inputs \<Rightarrow> int" where
  "initial_investment i = num_businesses i * purchase_price i"

definition total_annual_cost :: "inputs \<Rightarrow> int" where
  "total_annual_cost i = annual_cost i * total_years i * num_businesses i"

definition total_cost :: "inputs \<Rightarrow> int" where
  "total_cost i = initial_investment i + total_annual_cost i"

definition total_revenue :: "inputs \<Rightarrow> int" where
  "total_revenue i = resale_value i * num_businesses i"

definition net_profit :: "inputs \<Rightarrow> int" where
  "net_profit i = total_revenue i - total_cost i"

definition roi :: "inputs \<Rightarrow> error + pyfloat" where
  "roi i = percent_of (net_profit i) (total_cost i)"

definition roi_per_business :: "inputs \<Rightarrow> error + pyfloat" where
  "roi_per_business i =
     percent_of (resale_value i - (purchase_price i + annual_cost i * resale_year i))
                (purchase_price i + annual_cost i * resale_year i)"

subsection \<open>The yearly table (lines 56 to 69)\<close>

definition years :: "inputs \<Rightarrow> int list" where
  "years i = [1..resale_year i]"

definition cumulative_costs :: "inputs \<Rightarrow> int list" where
  "cumulative_costs i =
     map (\<lambda>y. initial_investment i + (y * annual_cost i * num_businesses i)) (years i)"

definition revenue :: "inputs \<Rightarrow> int list" where
  "revenue i = map (\<lambda>y. if y < resale_year i then 0 else total_revenue i) (years i)"

definition profit :: "inputs \<Rightarrow> int list" where
  "profit i = map (\<lambda>k. revenue i ! k - cumulative_costs i ! k) [0..<length (years i)]"

text \<open>
  The comprehension of line 61 evaluates its elements in order; the first division that
  raises ends the script.
\<close>

fun roi_rows :: "int list \<Rightarrow> int list \<Rightarrow> nat list \<Rightarrow> error + pyfloat list" where
  "roi_rows ps cs [] = Inr []"
| "roi_rows ps cs (k # ks) =
     (case percent_of (ps ! k) (cs ! k) of
        Inl e \<Rightarrow> Inl e
      | Inr r \<Rightarrow> (case roi_rows ps cs ks of
                    Inl e \<Rightarrow> Inl e
                  | Inr rs \<Rightarrow> Inr (r # rs)))"

definition roi_over_time :: "inputs \<Rightarrow> error + pyfloat list" where
  "roi_over_time i = roi_rows (profit i) (cumulative_costs i) [0..<length (years i)]"

text \<open>The data frame of line 63, a dictionary of five named columns.\<close>

record dataframe =
  Year :: "int list"
  Cumulative_Cost :: "int list"
  Projected_Revenue :: "int list"
  Net_Profit :: "int list"
  ROI_percent :: "pyfloat list"

text \<open>
  Lines 41 to 52 come after the two ROI figures and before the table: they render six
  summary metrics. The values shown are kept here, not their formatting as strings,
  which cannot fail.
\<close>

record metrics =
  metric_initial_investment :: int
  metric_annual_maintenance :: int
  metric_total_cost :: int
  metric_projected_revenue :: int
  metric_net_profit :: int
  metric_total_roi :: pyfloat

definition summary_metrics :: "inputs \<Rightarrow> pyfloat \<Rightarrow> metrics" where
  "summary_metrics i r =
     \<lparr>metric_initial_investment = initial_investment i,
      metric_annual_maintenance = annual_cost i * num_businesses i,
      metric_total_cost = total_cost i,
      metric_projected_revenue = total_revenue i,
      metric_net_profit = net_profit i,
      metric_total_roi = r\<rparr>"

text \<open>
  A run that ends in an exception: the exception, and the summary metrics already on the
  page when it was raised, if any.
\<close>

record failure =
  raised :: error
  shown :: "metrics option"

text \<open>Everything the script has computed when it reaches line 69.\<close>

record outputs =
  out_initial_investment :: int
  out_total_annual_cost :: int
  out_total_cost :: int
  out_total_revenue :: int
  out_net_profit :: int
  out_roi :: pyfloat
  out_roi_per_business :: pyfloat
  out_df :: dataframe

text \<open>
  The script from line 30 to line 69, in its order of evaluation: the integer totals
  cannot fail; line 37 may raise, then line 38, both before anything of the summary is
  rendered; lines 41 to 52 render the summary metrics; then line 61 may raise, with the
  metrics on the page and no table.
\<close>

definition app :: "inputs \<Rightarrow> failure + outputs" where
  "app i =
     (case roi i of
        Inl e \<Rightarrow> Inl \<lparr>raised = e, shown = None\<rparr>
      | Inr r \<Rightarrow>
     (case roi_per_business i of
        Inl e \<Rightarrow> Inl \<lparr>raised = e, shown = None\<rparr>
      | Inr rb \<Rightarrow>
     (case roi_over_time i of
        Inl e \<Rightarrow> Inl \<lparr>raised = e, shown = Some (summary_metrics i r)\<rparr>
      | Inr rs \<Rightarrow>
          Inr \<lparr>out_initial_investment = initial_investment i,
               out_total_annual_cost = total_annual_cost i,
               out_total_cost = total_cost i,
               out_total_revenue = total_revenue i,
               out_net_profit = net_profit i,
               out_roi = r,
               out_roi_per_business = rb,
               out_df = \<lparr>Year = years i,
                          Cumulative_Cost = cumulative_costs i,
                          Projected_Revenue = revenue i,
                          Net_Profit = profit i,
                          ROI_percent = rs\<rparr>\<rparr>)))"

subsection \<open>Concrete inputs\<close>

text \<open>
  The values the widgets show when the page opens, which is also the first concrete
  scenario of the specification; the same with three years of holding; and the same with
  a holding time of zero years, which no widget delivers.
\<close>

definition scenario_1 :: inputs where
  "scenario_1 = \<lparr>num_businesses = 10, purchase_price = 99, annual_cost = 50,
                  resale_value = 10000, resale_year = 10\<rparr>"

definition three_years :: inputs where
  "three_years = \<lparr>num_businesses = 10, purchase_price = 99, annual_cost = 50,
                   resale_value = 10000, resale_year = 3\<rparr>"




text \<open>
  Positive inputs of unbounded size: a resale value of \<open>2 ^ 1025\<close>, for which the
  quotient of line 37 is too large for a float.
\<close>

definition huge_resale :: inputs where
  "huge_resale = \<lparr>num_businesses = 1, purchase_price = 1, annual_cost = 1,
                   resale_value = 2 ^ 1025, resale_year = 1\<rparr>"

subsection \<open>The rows as the specification writes them\<close>

text \<open>
  The integer entries of the row of year \<open>y\<close> by the formulas of the specification's
  data model: a function of the five inputs and of \<open>y\<close> alone.
\<close>

definition spec_row :: "inputs \<Rightarrow> int \<Rightarrow> int \<times> int \<times> int \<times> int" where
  "spec_row i y =
     (let cumulative_cost = num_businesses i * purchase_price i
                              + y * annual_cost i * num_businesses i;
          revenue_y = (if y = resale_year i then resale_value i * num_businesses i else 0)
      in (y, cumulative_cost, revenue_y, revenue_y - cumulative_cost))"

section \<open>Binary64 rounding\<close>

lemma pow2_less_iff: "(2::rat) powi a < 2 powi b \<longleftrightarrow> a < b"
proof
  assume "(2::rat) powi a < 2 powi b"
  show "a < b"
  proof (rule ccontr)
    assume "\<not> a < b"
    then have "b \<le> a" by simp
    then have "(2::rat) powi b \<le> 2 powi a" by (rule power_int_increasing) simp
    with \<open>(2::rat) powi a < 2 powi b\<close> show False by simp
  qed
next
  assume "a < b"
  then show "(2::rat) powi a < 2 powi b" by (rule power_int_strict_increasing) simp
qed

lemma pow2_le_iff: "(2::rat) powi a \<le> 2 powi b \<longleftrightarrow> a \<le> b"
  using pow2_less_iff [of b a] by (auto simp: not_less [symmetric])

lemma round_half_even_error: "\<bar>of_int (round_half_even x) - x\<bar> \<le> 1/2"
proof -
  have "of_int \<lfloor>x\<rfloor> \<le> x" "x < of_int \<lfloor>x\<rfloor> + 1" by linarith+
  then show ?thesis
    unfolding round_half_even_def Let_def by (simp add: abs_le_iff)
qed

lemma round_half_even_unique:
  assumes "\<bar>of_int n - x\<bar> < 1/2"
  shows "round_half_even x = n"
proof -
  have "\<bar>of_int (round_half_even x) - x\<bar> \<le> 1/2" by (rule round_half_even_error)
  with assms have "\<bar>(of_int (round_half_even x) :: rat) - of_int n\<bar> < 1" by linarith
  then have "\<bar>round_half_even x - n\<bar> < 1"
    by (metis of_int_abs of_int_diff of_int_less_1_iff)
  then show ?thesis by linarith
qed

lemma round_half_even_of_int: "round_half_even (of_int n) = n"
  by (rule round_half_even_unique) simp

lemma round_half_even_ge:
  assumes "of_int m \<le> x" shows "m \<le> round_half_even x"
proof -
  have "m \<le> \<lfloor>x\<rfloor>" using assms by (simp add: le_floor_iff)
  moreover have "\<lfloor>x\<rfloor> \<le> round_half_even x"
    unfolding round_half_even_def Let_def by auto
  ultimately show ?thesis by linarith
qed

lemma round_half_even_le:
  assumes "x \<le> of_int m" shows "round_half_even x \<le> m"
proof (cases "x = of_int m")
  case True then show ?thesis by (simp add: round_half_even_of_int)
next
  case False
  with assms have lt: "x < of_int m" by simp
  then have "\<lfloor>x\<rfloor> < m" by (simp add: floor_less_iff)
  moreover have "round_half_even x \<le> \<lfloor>x\<rfloor> + 1"
    unfolding round_half_even_def Let_def by auto
  ultimately show ?thesis by linarith
qed

lemma pow2_of_int: "0 \<le> k \<Longrightarrow> (2::rat) powi k = of_int (2 ^ nat k)"
  by (simp add: power_int_def)

lemma floor_log2_bounds:
  assumes "0 < x"
  shows "2 powi floor_log2 x \<le> x \<and> x < 2 powi (floor_log2 x + 1)"
proof -
  obtain p q where pq: "quotient_of x = (p, q)" by (cases "quotient_of x")
  then have q: "0 < q" and x: "x = of_int p / of_int q"
    by (simp_all add: quotient_of_denom_pos quotient_of_div)
  with assms have p: "0 < p" by (simp add: zero_less_divide_iff)
  define d where "d = bitlen p - bitlen q"
  have bp: "2 ^ nat (bitlen p - 1) \<le> p" "p < 2 ^ nat (bitlen p)"
    using bitlen_bounds [OF p] by simp_all
  have bq: "2 ^ nat (bitlen q - 1) \<le> q" "q < 2 ^ nat (bitlen q)"
    using bitlen_bounds [OF q] by simp_all
  have p1: "1 \<le> bitlen p" using p bitlen_eq_zero_iff [of p] bitlen_nonneg [of p] by linarith
  have q1: "1 \<le> bitlen q" using q bitlen_eq_zero_iff [of q] bitlen_nonneg [of q] by linarith
  have P: "(2::rat) powi (bitlen p - 1) \<le> of_int p" "(of_int p :: rat) < 2 powi bitlen p"
    using bp p1 by (simp_all add: pow2_of_int)
  have Q: "(2::rat) powi (bitlen q - 1) \<le> of_int q" "(of_int q :: rat) < 2 powi bitlen q"
    using bq q1 by (simp_all add: pow2_of_int)
  have upper: "x < 2 powi (d + 1)"
  proof -
    have "of_int p < (2::rat) powi bitlen p" by (rule P)
    also have "\<dots> = 2 powi (d + 1) * 2 powi (bitlen q - 1)"
      by (simp add: d_def flip: power_int_add)
    also have "\<dots> \<le> 2 powi (d + 1) * of_int q"
      by (rule mult_left_mono [OF Q(1)]) simp
    finally show ?thesis using q by (simp add: x pos_divide_less_eq)
  qed
  have lower: "2 powi (d - 1) < x"
  proof -
    have "(2::rat) powi (d - 1) * of_int q < 2 powi (d - 1) * 2 powi bitlen q"
      by (rule mult_strict_left_mono [OF Q(2)]) simp
    also have "\<dots> = 2 powi (bitlen p - 1)"
      by (simp add: d_def flip: power_int_add)
    also have "\<dots> \<le> of_int p" by (rule P)
    finally show ?thesis using q by (simp add: x pos_less_divide_eq)
  qed
  have fl: "floor_log2 x = (if 2 powi d \<le> x then d else d - 1)"
    by (simp add: floor_log2_def pq d_def Let_def)
  show ?thesis
  proof (cases "2 powi d \<le> x")
    case True with upper fl show ?thesis by simp
  next
    case False with lower fl show ?thesis by simp
  qed
qed

lemma floor_log2_unique:
  assumes "0 < x" "2 powi e \<le> x" "x < 2 powi (e + 1)"
  shows "floor_log2 x = e"
proof -
  let ?f = "floor_log2 x"
  have b: "2 powi ?f \<le> x" "x < 2 powi (?f + 1)"
    using floor_log2_bounds [OF assms(1)] by simp_all
  have "(2::rat) powi e < 2 powi (?f + 1)" using assms(2) b(2) by linarith
  then have "e < ?f + 1" by (simp add: pow2_less_iff)
  moreover have "(2::rat) powi ?f < 2 powi (e + 1)" using assms(3) b(1) by linarith
  then have "?f < e + 1" by (simp add: pow2_less_iff)
  ultimately show ?thesis by linarith
qed


lemma round64_normal:
  assumes x: "x \<noteq> 0" and lo: "2 powi e \<le> \<bar>x\<bar>" and hi: "\<bar>x\<bar> < 2 powi (e + 1)"
    and e: "- 1022 \<le> e" "e \<le> 1022"
  shows "\<exists>r. round64 x = Some r \<and> \<bar>r - x\<bar> \<le> 2 powi (e - 53) \<and>
             2 powi e \<le> \<bar>r\<bar> \<and> \<bar>r\<bar> \<le> 2 powi (e + 1)"
proof -
  let ?k = "e - 52"
  let ?y = "\<bar>x\<bar> / 2 powi ?k"
  let ?n = "round_half_even ?y"
  let ?r = "of_int ?n * (2::rat) powi ?k"
  have ax: "0 < \<bar>x\<bar>" using x by simp
  have fl: "floor_log2 \<bar>x\<bar> = e" by (rule floor_log2_unique [OF ax lo hi])
  have k: "max (floor_log2 \<bar>x\<bar>) (- 1022) - 52 = ?k" using fl e by simp
  have pk: "(0::rat) < 2 powi ?k" by simp
  have e_split: "(2::rat) powi e = 2 ^ 52 * 2 powi ?k" "(2::rat) powi (e + 1) = 2 ^ 53 * 2 powi ?k"
    by (simp_all add: power_int_diff power_int_add)
  have ylo: "of_int (2 ^ 52) \<le> ?y" using lo pk by (simp add: e_split pos_le_divide_eq)
  have yhi: "?y \<le> of_int (2 ^ 53)" using hi pk by (simp add: e_split pos_divide_le_eq)
  have nlo: "2 ^ 52 \<le> ?n" by (rule round_half_even_ge [OF ylo])
  have nhi: "?n \<le> 2 ^ 53" by (rule round_half_even_le [OF yhi])
  have rlo: "2 powi e \<le> ?r"
  proof -
    have "(of_int (2 ^ 52) :: rat) \<le> of_int ?n" using nlo by (simp only: of_int_le_iff)
    then have "(of_int (2 ^ 52) :: rat) * 2 powi ?k \<le> ?r" using pk by (simp only: mult_le_cancel_right_pos)
    then show ?thesis by (simp add: e_split)
  qed
  have rhi: "?r \<le> 2 powi (e + 1)"
  proof -
    have "(of_int ?n :: rat) \<le> of_int (2 ^ 53)" using nhi by (simp only: of_int_le_iff)
    then have "?r \<le> (of_int (2 ^ 53) :: rat) * 2 powi ?k" using pk by (simp only: mult_le_cancel_right_pos)
    then show ?thesis by (simp add: e_split)
  qed
  have "(2::rat) powi (e + 1) \<le> 2 powi 1023" using e by (simp only: pow2_le_iff)
  also have "\<dots> < 2 ^ 1024" by simp
  finally have noov: "\<not> 2 ^ 1024 \<le> ?r" using rhi by simp
  have r0: "0 < ?r" using rlo by (rule less_le_trans [rotated]) simp
  have val: "round64 x = Some (sgn x * ?r)"
    using x noov by (simp add: round64_def k Let_def)
  have err0: "\<bar>?r - \<bar>x\<bar>\<bar> \<le> 2 powi (e - 53)"
  proof -
    have "\<bar>x\<bar> = ?y * 2 powi ?k" by simp
    then have "?r - \<bar>x\<bar> = (of_int ?n - ?y) * 2 powi ?k" by (simp only: left_diff_distrib)
    then have "\<bar>?r - \<bar>x\<bar>\<bar> = \<bar>of_int ?n - ?y\<bar> * 2 powi ?k"
      by (simp only: abs_mult) simp
    also have "\<dots> \<le> (1/2) * 2 powi ?k"
      using round_half_even_error [of ?y] pk by (simp only: mult_le_cancel_right_pos)
    also have "\<dots> = 2 powi (e - 53)" by (simp add: power_int_diff)
    finally show ?thesis .
  qed
  have sx: "sgn x * \<bar>x\<bar> = x" by (simp add: sgn_if)
  have "sgn x * ?r - x = sgn x * (?r - \<bar>x\<bar>)" by (simp only: right_diff_distrib sx)
  then have err: "\<bar>sgn x * ?r - x\<bar> = \<bar>?r - \<bar>x\<bar>\<bar>"
    using x by (simp only: abs_mult abs_sgn_eq) simp
  have "\<bar>?r\<bar> = ?r" using r0 by (simp only: abs_of_pos)
  moreover have "\<bar>sgn x\<bar> = 1" using x by (simp add: abs_sgn_eq)
  ultimately have ar: "\<bar>sgn x * ?r\<bar> = ?r" by (simp only: abs_mult mult_1)
  show ?thesis using val err err0 rlo rhi ar by simp
qed

lemma round64_between:
  assumes lo: "2 powi lo \<le> \<bar>x\<bar>" and hi: "\<bar>x\<bar> < 2 powi hi"
    and b: "- 1022 \<le> lo" "hi \<le> 1023"
  shows "\<exists>r. round64 x = Some r \<and> \<bar>r - x\<bar> \<le> \<bar>x\<bar> / 2 ^ 53 \<and>
             2 powi lo \<le> \<bar>r\<bar> \<and> \<bar>r\<bar> \<le> 2 powi hi"
proof -
  have "(0::rat) < 2 powi lo" by simp
  with lo have ax: "0 < \<bar>x\<bar>" by linarith
  then have x: "x \<noteq> 0" by simp
  define e where "e = floor_log2 \<bar>x\<bar>"
  have fb: "2 powi e \<le> \<bar>x\<bar>" "\<bar>x\<bar> < 2 powi (e + 1)"
    using floor_log2_bounds [OF ax] by (simp_all add: e_def)
  have "(2::rat) powi lo < 2 powi (e + 1)" using lo fb(2) by linarith
  then have le: "lo \<le> e" by (simp add: pow2_less_iff)
  have "(2::rat) powi e < 2 powi hi" using hi fb(1) by linarith
  then have eh: "e + 1 \<le> hi" by (simp add: pow2_less_iff)
  from round64_normal [OF x fb] le eh b
  obtain r where r: "round64 x = Some r" "\<bar>r - x\<bar> \<le> 2 powi (e - 53)"
    "2 powi e \<le> \<bar>r\<bar>" "\<bar>r\<bar> \<le> 2 powi (e + 1)" by auto
  have "(2::rat) powi (e - 53) = 2 powi e / 2 ^ 53" by (simp add: power_int_diff)
  also have "\<dots> \<le> \<bar>x\<bar> / 2 ^ 53" using fb(1) by (simp add: divide_right_mono)
  finally have 1: "\<bar>r - x\<bar> \<le> \<bar>x\<bar> / 2 ^ 53" using r(2) by linarith
  have "(2::rat) powi lo \<le> 2 powi e" using le by (simp only: pow2_le_iff)
  then have 2: "2 powi lo \<le> \<bar>r\<bar>" using r(3) by linarith
  have "(2::rat) powi (e + 1) \<le> 2 powi hi" using eh by (simp only: pow2_le_iff)
  then have 3: "\<bar>r\<bar> \<le> 2 powi hi" using r(4) by linarith
  show ?thesis using r(1) 1 2 3 by simp
qed

lemma round64_eqI:
  assumes x: "x \<noteq> 0" and lo: "2 powi e \<le> \<bar>x\<bar>" and hi: "\<bar>x\<bar> < 2 powi (e + 1)"
    and e: "- 1022 \<le> e"
    and n: "\<bar>of_int n - \<bar>x\<bar> / 2 powi (e - 52)\<bar> < 1/2"
    and noov: "(of_int n :: rat) * 2 powi (e - 52) < 2 ^ 1024"
  shows "round64 x = Some (sgn x * (of_int n * 2 powi (e - 52)))"
proof -
  have ax: "0 < \<bar>x\<bar>" using x by simp
  have fl: "floor_log2 \<bar>x\<bar> = e" by (rule floor_log2_unique [OF ax lo hi])
  have k: "max (floor_log2 \<bar>x\<bar>) (- 1022) - 52 = e - 52" using fl e by simp
  have rn: "round_half_even (\<bar>x\<bar> / 2 powi (e - 52)) = n"
    by (rule round_half_even_unique [OF n])
  show ?thesis using x noov by (simp add: round64_def k Let_def rn)
qed

lemma round64_overflowI:
  assumes x: "x \<noteq> 0" and lo: "2 powi e \<le> \<bar>x\<bar>" and hi: "\<bar>x\<bar> < 2 powi (e + 1)"
    and e: "- 1022 \<le> e"
    and n: "\<bar>of_int n - \<bar>x\<bar> / 2 powi (e - 52)\<bar> < 1/2"
    and ov: "2 ^ 1024 \<le> (of_int n :: rat) * 2 powi (e - 52)"
  shows "round64 x = None"
proof -
  have ax: "0 < \<bar>x\<bar>" using x by simp
  have fl: "floor_log2 \<bar>x\<bar> = e" by (rule floor_log2_unique [OF ax lo hi])
  have k: "max (floor_log2 \<bar>x\<bar>) (- 1022) - 52 = e - 52" using fl e by simp
  have rn: "round_half_even (\<bar>x\<bar> / 2 powi (e - 52)) = n"
    by (rule round_half_even_unique [OF n])
  show ?thesis using x ov by (simp add: round64_def k Let_def rn)
qed

lemma round64_0: "round64 0 = Some 0"
  by (simp add: round64_def)


section \<open>The ROI expression\<close>

lemma int_truediv_scale:
  assumes "n \<noteq> 0"
  shows "int_truediv (n * a) (n * b) = int_truediv a b"
  using assms by (simp add: int_truediv_def)

lemma percent_of_scale:
  assumes "n \<noteq> 0"
  shows "percent_of (n * a) (n * b) = percent_of a b"
  by (simp add: percent_of_def int_truediv_scale [OF assms])


lemma percent_of_bounded:
  assumes b: "b \<noteq> 0" and A: "\<bar>a\<bar> < 2 ^ 200" and B: "\<bar>b\<bar> < 2 ^ 200"
  shows "\<exists>f. percent_of a b = Inr f \<and> within_tolerance f (of_int a / of_int b * 100)"
proof (cases "a = 0")
  case True
  then show ?thesis using b
    by (simp add: percent_of_def int_truediv_def round64_0 float_mul_def within_tolerance_def)
next
  case False
  define q :: rat where "q = of_int a / of_int b"
  have b1: "(1::rat) \<le> \<bar>of_int b\<bar>" using b by (metis of_int_abs of_int_1_le_iff abs_ge_zero zero_less_abs_iff int_one_le_iff_zero_less)
  have a1: "(1::rat) \<le> \<bar>of_int a\<bar>" using False by (metis of_int_abs of_int_1_le_iff abs_ge_zero zero_less_abs_iff int_one_le_iff_zero_less)
  have A': "\<bar>of_int a :: rat\<bar> < 2 ^ 200" using A by (metis of_int_abs of_int_less_numeral_power_cancel_iff)
  have B': "\<bar>of_int b :: rat\<bar> < 2 ^ 200" using B by (metis of_int_abs of_int_less_numeral_power_cancel_iff)
  have qabs: "\<bar>q\<bar> = \<bar>of_int a\<bar> / \<bar>of_int b\<bar>" by (simp only: q_def abs_divide)
  have qlo: "2 powi (- 200) \<le> \<bar>q\<bar>"
  proof -
    have "(2::rat) powi (- 200) = 1 / 2 ^ 200" by (simp add: power_int_minus_divide)
    also have "\<dots> \<le> 1 / \<bar>of_int b\<bar>" using B' b1 by (intro divide_left_mono) simp_all
    also have "\<dots> \<le> \<bar>of_int a\<bar> / \<bar>of_int b\<bar>" using a1 b1 by (intro divide_right_mono) simp_all
    finally show ?thesis by (simp only: qabs)
  qed
  have qhi: "\<bar>q\<bar> < 2 powi 200"
  proof -
    have "\<bar>of_int a\<bar> / \<bar>of_int b :: rat\<bar> \<le> \<bar>of_int a\<bar> / 1" using b1 by (intro divide_left_mono) simp_all
    also have "\<dots> < 2 ^ 200" using A' by simp
    finally show ?thesis by (simp add: qabs)
  qed
  from round64_between [OF qlo qhi]
  obtain r where r: "round64 q = Some r" "\<bar>r - q\<bar> \<le> \<bar>q\<bar> / 2 ^ 53"
    "2 powi (- 200) \<le> \<bar>r\<bar>" "\<bar>r\<bar> \<le> 2 powi 200" by auto
  have xlo: "2 powi (- 200) \<le> \<bar>r * 100\<bar>"
  proof -
    have "\<bar>r\<bar> \<le> \<bar>r\<bar> * 100" by simp
    then show ?thesis using r(3) by (simp add: abs_mult)
  qed
  have xhi: "\<bar>r * 100\<bar> < 2 powi 207"
  proof -
    have "\<bar>r * 100\<bar> = \<bar>r\<bar> * 100" by (simp add: abs_mult)
    also have "\<dots> \<le> 2 powi 200 * 100" using r(4) by simp
    also have "\<dots> < 2 powi 200 * 2 ^ 7" by simp
    also have "\<dots> = 2 powi 207" by simp
    finally show ?thesis .
  qed
  from round64_between [OF xlo xhi]
  obtain s where s: "round64 (r * 100) = Some s" "\<bar>s - r * 100\<bar> \<le> \<bar>r * 100\<bar> / 2 ^ 53" by auto
  have val: "percent_of a b = Inr (Finite s)"
    using b r(1) s(1) by (simp add: percent_of_def int_truediv_def float_mul_def flip: q_def)
  have rq: "\<bar>r\<bar> \<le> 2 * \<bar>q\<bar>"
  proof -
    have "\<bar>r\<bar> \<le> \<bar>q\<bar> + \<bar>r - q\<bar>" by linarith
    also have "\<dots> \<le> \<bar>q\<bar> + \<bar>q\<bar> / 2 ^ 53" using r(2) by simp
    also have "\<dots> \<le> \<bar>q\<bar> + \<bar>q\<bar>" by simp
    finally show ?thesis by simp
  qed
  have "\<bar>(r - q) * 100\<bar> = \<bar>r - q\<bar> * 100" by (simp only: abs_mult abs_numeral)
  moreover have "s - q * 100 = (s - r * 100) + (r - q) * 100" by (simp add: algebra_simps)
  ultimately have "\<bar>s - q * 100\<bar> \<le> \<bar>s - r * 100\<bar> + \<bar>r - q\<bar> * 100"
    using abs_triangle_ineq [of "s - r * 100" "(r - q) * 100"] by simp
  also have "\<dots> \<le> \<bar>r\<bar> * 100 / 2 ^ 53 + \<bar>q\<bar> / 2 ^ 53 * 100"
    using s(2) r(2) by (simp add: abs_mult)
  also have "\<dots> \<le> (2 * \<bar>q\<bar>) * 100 / 2 ^ 53 + \<bar>q\<bar> / 2 ^ 53 * 100"
    using rq by (simp add: divide_right_mono)
  also have "\<dots> \<le> \<bar>q * 100\<bar> / 2 ^ 51" by (simp add: abs_mult)
  finally have "within_tolerance (Finite s) (q * 100)" by (simp add: within_tolerance_def)
  with val show ?thesis by (simp add: q_def)
qed


section \<open>The columns of the table\<close>

lemma length_years: "length (years i) = nat (resale_year i)"
  by (simp add: years_def)

lemma nth_years:
  assumes "k < nat (resale_year i)"
  shows "years i ! k = int k + 1"
  using assms by (simp add: years_def nth_upto)

lemma length_cumulative_costs: "length (cumulative_costs i) = nat (resale_year i)"
  by (simp add: cumulative_costs_def length_years)

lemma length_revenue: "length (revenue i) = nat (resale_year i)"
  by (simp add: revenue_def length_years)

lemma length_profit: "length (profit i) = nat (resale_year i)"
  by (simp add: profit_def length_years)

lemma nth_cumulative_costs:
  assumes "k < nat (resale_year i)"
  shows "cumulative_costs i ! k =
           initial_investment i + (int k + 1) * annual_cost i * num_businesses i"
  using assms by (simp add: cumulative_costs_def length_years nth_years)

lemma nth_revenue:
  assumes "k < nat (resale_year i)"
  shows "revenue i ! k = (if int k + 1 < resale_year i then 0 else total_revenue i)"
  using assms by (simp add: revenue_def length_years nth_years)

lemma nth_profit:
  assumes "k < nat (resale_year i)"
  shows "profit i ! k = revenue i ! k - cumulative_costs i ! k"
  using assms by (simp add: profit_def length_years)

lemma roi_rows_length:
  "roi_rows ps cs ks = Inr rs \<Longrightarrow> length rs = length ks"
  by (induction ks arbitrary: rs) (auto split: sum.splits)

lemma roi_rows_nth:
  "roi_rows ps cs ks = Inr rs \<Longrightarrow> j < length ks \<Longrightarrow>
     percent_of (ps ! (ks ! j)) (cs ! (ks ! j)) = Inr (rs ! j)"
proof (induction ks arbitrary: rs j)
  case Nil
  then show ?case by simp
next
  case (Cons k ks)
  from Cons.prems(1) obtain r rs' where
    h: "percent_of (ps ! k) (cs ! k) = Inr r" "roi_rows ps cs ks = Inr rs'" "rs = r # rs'"
    by (auto split: sum.splits)
  show ?case
  proof (cases j)
    case 0
    with h show ?thesis by simp
  next
    case (Suc j')
    with Cons.prems(2) have "j' < length ks" by simp
    from Cons.IH [OF h(2) this] Suc h(3) show ?thesis by simp
  qed
qed

lemma roi_rows_returns:
  "(\<And>k. k \<in> set ks \<Longrightarrow> \<exists>f. percent_of (ps ! k) (cs ! k) = Inr f) \<Longrightarrow>
     \<exists>rs. roi_rows ps cs ks = Inr rs"
proof (induction ks)
  case Nil
  then show ?case by simp
next
  case (Cons k ks)
  from Cons.prems [of k] obtain f where f: "percent_of (ps ! k) (cs ! k) = Inr f" by auto
  from Cons.IH Cons.prems obtain rs where "roi_rows ps cs ks = Inr rs" by auto
  with f show ?case by simp
qed


lemma roi_over_time_length:
  "roi_over_time i = Inr rs \<Longrightarrow> length rs = nat (resale_year i)"
  by (auto simp: roi_over_time_def length_years dest: roi_rows_length)

lemma roi_over_time_nth:
  assumes "roi_over_time i = Inr rs" "k < nat (resale_year i)"
  shows "percent_of (profit i ! k) (cumulative_costs i ! k) = Inr (rs ! k)"
  using roi_rows_nth [of "profit i" "cumulative_costs i" "[0..<length (years i)]" rs k] assms
  by (simp add: roi_over_time_def length_years)


section \<open>Sizes and results on valid inputs\<close>

lemma product_bound:
  fixes a b :: int
  assumes "0 \<le> a" "a \<le> A" "0 \<le> b" "b \<le> B"
  shows "0 \<le> a * b \<and> a * b \<le> A * B"
  using assms by (simp add: mult_mono)


lemma cost_at_year_bounds:
  assumes v: "valid_input i" and b: "bounded_input i" and y: "1 \<le> y" "y \<le> resale_year i"
  shows "0 < initial_investment i + y * annual_cost i * num_businesses i"
    and "initial_investment i + y * annual_cost i * num_businesses i < 2 ^ 199"
proof -
  let ?n = "num_businesses i" and ?p = "purchase_price i" and ?a = "annual_cost i"
  have pos: "0 < ?n" "0 < ?p" "0 < ?a" "0 < y" using v y by (simp_all add: valid_input_def)
  have bnd: "?n \<le> 2 ^ 64" "?p \<le> 2 ^ 64" "?a \<le> 2 ^ 64" "y \<le> 2 ^ 64"
    using b y by (simp_all add: bounded_input_def)
  have np: "0 < ?n * ?p" using pos by simp
  have ya: "0 < y * ?a" using pos by simp
  then have yan: "0 < y * ?a * ?n" using pos by simp
  have 1: "?n * ?p \<le> 2 ^ 64 * 2 ^ 64" using product_bound [of ?n "2 ^ 64" ?p "2 ^ 64"] pos bnd by simp
  have 2: "y * ?a \<le> 2 ^ 64 * 2 ^ 64" using product_bound [of y "2 ^ 64" ?a "2 ^ 64"] pos bnd by simp
  have 3: "y * ?a * ?n \<le> (2 ^ 64 * 2 ^ 64) * 2 ^ 64"
    using product_bound [of "y * ?a" "2 ^ 64 * 2 ^ 64" ?n "2 ^ 64"] ya 2 pos bnd by simp
  show "0 < initial_investment i + y * ?a * ?n" using np yan by (simp add: initial_investment_def)
  show "initial_investment i + y * ?a * ?n < 2 ^ 199" using 1 3 by (simp add: initial_investment_def)
qed

lemma total_revenue_bounds:
  assumes v: "valid_input i" and b: "bounded_input i"
  shows "0 < total_revenue i" and "total_revenue i < 2 ^ 199"
proof -
  let ?n = "num_businesses i" and ?r = "resale_value i"
  have pos: "0 < ?n" "0 < ?r" using v by (simp_all add: valid_input_def)
  have bnd: "?n \<le> 2 ^ 64" "?r \<le> 2 ^ 64" using b by (simp_all add: bounded_input_def)
  show "0 < total_revenue i" using pos by (simp add: total_revenue_def)
  have "?r * ?n \<le> 2 ^ 64 * 2 ^ 64" using product_bound [of ?r "2 ^ 64" ?n "2 ^ 64"] pos bnd by simp
  then show "total_revenue i < 2 ^ 199" by (simp add: total_revenue_def)
qed

lemma total_cost_eq: "total_cost i =
    initial_investment i + resale_year i * annual_cost i * num_businesses i"
  by (simp add: total_cost_def total_annual_cost_def total_years_def mult.commute)

lemma total_cost_bounds:
  assumes v: "valid_input i" and b: "bounded_input i"
  shows "0 < total_cost i" and "total_cost i < 2 ^ 199"
proof -
  have y: "1 \<le> resale_year i" using v by (simp add: valid_input_def)
  show "0 < total_cost i" "total_cost i < 2 ^ 199"
    using cost_at_year_bounds [OF v b y] by (simp_all add: total_cost_eq)
qed

lemma roi_returns:
  assumes v: "valid_input i" and b: "bounded_input i"
  shows "\<exists>f. roi i = Inr f \<and>
           within_tolerance f (of_int (net_profit i) / of_int (total_cost i) * 100)"
proof -
  have c: "0 < total_cost i" "total_cost i < 2 ^ 199" by (rule total_cost_bounds [OF v b])+
  have r: "0 < total_revenue i" "total_revenue i < 2 ^ 199" by (rule total_revenue_bounds [OF v b])+
  have "\<bar>net_profit i\<bar> < 2 ^ 200" using c r by (simp add: net_profit_def abs_less_iff)
  moreover have "\<bar>total_cost i\<bar> < 2 ^ 200" using c by (simp add: abs_less_iff)
  moreover have "total_cost i \<noteq> 0" using c by simp
  ultimately show ?thesis unfolding roi_def by (intro percent_of_bounded)
qed

lemma row_bounds:
  assumes v: "valid_input i" and b: "bounded_input i" and k: "k < nat (resale_year i)"
  shows "0 < cumulative_costs i ! k" and "\<bar>cumulative_costs i ! k\<bar> < 2 ^ 200"
    and "\<bar>profit i ! k\<bar> < 2 ^ 200"
proof -
  have y: "1 \<le> int k + 1" "int k + 1 \<le> resale_year i" using k by simp_all
  have c: "0 < cumulative_costs i ! k" "cumulative_costs i ! k < 2 ^ 199"
    using cost_at_year_bounds [OF v b y] by (simp_all add: nth_cumulative_costs [OF k])
  have r: "0 < total_revenue i" "total_revenue i < 2 ^ 199" by (rule total_revenue_bounds [OF v b])+
  show "0 < cumulative_costs i ! k" by (rule c)
  show "\<bar>cumulative_costs i ! k\<bar> < 2 ^ 200" using c by (simp add: abs_less_iff)
  show "\<bar>profit i ! k\<bar> < 2 ^ 200"
    using c r by (simp add: nth_profit [OF k] nth_revenue [OF k] abs_less_iff)
qed

lemma row_roi_returns:
  assumes v: "valid_input i" and b: "bounded_input i" and k: "k < nat (resale_year i)"
  shows "\<exists>f. percent_of (profit i ! k) (cumulative_costs i ! k) = Inr f \<and>
           within_tolerance f (of_int (profit i ! k) / of_int (cumulative_costs i ! k) * 100)"
proof -
  have "cumulative_costs i ! k \<noteq> 0" using row_bounds(1) [OF v b k] by simp
  then show ?thesis using row_bounds(2,3) [OF v b k] by (intro percent_of_bounded)
qed

lemma roi_over_time_returns:
  assumes v: "valid_input i" and b: "bounded_input i"
  shows "\<exists>rs. roi_over_time i = Inr rs"
  unfolding roi_over_time_def
proof (rule roi_rows_returns)
  fix k assume "k \<in> set [0..<length (years i)]"
  then have "k < nat (resale_year i)" by (simp add: length_years)
  from row_roi_returns [OF v b this]
  show "\<exists>f. percent_of (profit i ! k) (cumulative_costs i ! k) = Inr f" by blast
qed

lemma per_business_scaled:
  "net_profit i = num_businesses i *
      (resale_value i - (purchase_price i + annual_cost i * resale_year i))"
  "total_cost i = num_businesses i * (purchase_price i + annual_cost i * resale_year i)"
  by (simp_all add: net_profit_def total_revenue_def total_cost_def total_annual_cost_def
      total_years_def initial_investment_def algebra_simps)

lemma roi_eq_roi_per_business:
  assumes "num_businesses i \<noteq> 0"
  shows "roi i = roi_per_business i"
  unfolding roi_def roi_per_business_def per_business_scaled
  by (rule percent_of_scale [OF assms])

lemma app_returns:
  assumes v: "valid_input i" and b: "bounded_input i"
  shows "\<exists>out. app i = Inr out"
proof -
  obtain f where f: "roi i = Inr f" using roi_returns [OF v b] by blast
  have "num_businesses i \<noteq> 0" using v by (simp add: valid_input_def)
  then have g: "roi_per_business i = Inr f" using f roi_eq_roi_per_business by simp
  obtain rs where "roi_over_time i = Inr rs" using roi_over_time_returns [OF v b] by blast
  with f g show ?thesis by (simp add: app_def)
qed

lemma app_Inr:
  assumes "app i = Inr out"
  shows "out_initial_investment out = initial_investment i"
    and "out_total_annual_cost out = total_annual_cost i"
    and "out_total_cost out = total_cost i"
    and "out_total_revenue out = total_revenue i"
    and "out_net_profit out = net_profit i"
    and "roi i = Inr (out_roi out)"
    and "roi_per_business i = Inr (out_roi_per_business out)"
    and "Year (out_df out) = years i"
    and "Cumulative_Cost (out_df out) = cumulative_costs i"
    and "Projected_Revenue (out_df out) = revenue i"
    and "Net_Profit (out_df out) = profit i"
    and "roi_over_time i = Inr (ROI_percent (out_df out))"
  using assms by (auto simp: app_def split: sum.splits)





section \<open>Concrete runs\<close>

lemma percent_of_eval:
  assumes "b \<noteq> 0" "round64 (of_int a / of_int b) = Some q" "round64 (q * 100) = Some r"
  shows "percent_of a b = Inr (Finite r)"
  using assms by (simp add: percent_of_def int_truediv_def float_mul_def)

lemma percent_of_minus_self:
  assumes "b \<noteq> 0"
  shows "percent_of (- b) b = Inr (Finite (- 100))"
proof -
  have 1: "round64 (of_int (- b) / of_int b) = Some (- 1)"
    using assms round64_eqI [of "- 1" 0 "2 ^ 52"] by simp
  have 2: "round64 (- 1 * 100) = Some (- 100)"
    using round64_eqI [of "- 100" 6 7036874417766400] by simp
  show ?thesis by (rule percent_of_eval [OF assms 1 2])
qed

lemma percent_of_94010_5990:
  "percent_of 94010 5990 = Inr (Finite (6902510058579083 / 4398046511104))"
proof -
  have 1: "round64 (of_int 94010 / of_int 5990) = Some (4417606437490613 / 281474976710656)"
    using round64_eqI [of "94010 / 5990" 3 8835212874981226] by simp
  have 2: "round64 (4417606437490613 / 281474976710656 * 100) =
             Some (6902510058579083 / 4398046511104)"
    using round64_eqI [of "4417606437490613 / 281474976710656 * 100" 10 6902510058579083]
    by simp
  show ?thesis by (rule percent_of_eval [OF _ 1 2]) simp
qed

lemma percent_of_97510_2490:
  "percent_of 97510 2490 = Inr (Finite (538219773215049 / 137438953472))"
proof -
  have 1: "round64 (of_int 97510 / of_int 2490) = Some (2755685238861051 / 70368744177664)"
    using round64_eqI [of "97510 / 2490" 5 5511370477722102] by simp
  have 2: "round64 (2755685238861051 / 70368744177664 * 100) =
             Some (538219773215049 / 137438953472)"
    using round64_eqI [of "2755685238861051 / 70368744177664 * 100" 11 8611516371440784]
    by simp
  show ?thesis by (rule percent_of_eval [OF _ 1 2]) simp
qed



lemma scenario_1_totals:
  "initial_investment scenario_1 = 990" "total_annual_cost scenario_1 = 5000"
  "total_cost scenario_1 = 5990" "total_revenue scenario_1 = 100000"
  "net_profit scenario_1 = 94010"
  by (simp_all add: scenario_1_def initial_investment_def total_annual_cost_def total_years_def
      total_cost_def total_revenue_def net_profit_def)

lemma scenario_1_valid: "valid_input scenario_1" "bounded_input scenario_1"
  by (simp_all add: scenario_1_def valid_input_def bounded_input_def)

lemma scenario_1_roi:
  "roi scenario_1 = Inr (Finite (6902510058579083 / 4398046511104))"
  by (simp add: roi_def scenario_1_totals percent_of_94010_5990)

lemma three_years_valid: "valid_input three_years" "bounded_input three_years"
  by (simp_all add: three_years_def valid_input_def bounded_input_def)

lemma three_years_columns:
  "years three_years = [1, 2, 3]"
  "cumulative_costs three_years = [1490, 1990, 2490]"
  "revenue three_years = [0, 0, 100000]"
  "profit three_years = [- 1490, - 1990, 97510]"
proof -
  show y: "years three_years = [1, 2, 3]"
    by (simp add: years_def three_years_def upto_rec1)
  show c: "cumulative_costs three_years = [1490, 1990, 2490]"
    by (simp add: cumulative_costs_def y) (simp add: three_years_def initial_investment_def)
  show r: "revenue three_years = [0, 0, 100000]"
    by (simp add: revenue_def y) (simp add: three_years_def total_revenue_def)
  show "profit three_years = [- 1490, - 1990, 97510]"
    by (simp add: profit_def y c r upt_rec)
qed

lemma three_years_roi_over_time:
  "roi_over_time three_years =
     Inr [Finite (- 100), Finite (- 100), Finite (538219773215049 / 137438953472)]"
proof -
  have 1: "percent_of (- 1490) 1490 = Inr (Finite (- 100))"
    using percent_of_minus_self [of 1490] by simp
  have 2: "percent_of (- 1990) 1990 = Inr (Finite (- 100))"
    using percent_of_minus_self [of 1990] by simp
  show ?thesis
    by (simp add: roi_over_time_def three_years_columns upt_rec 1 2 percent_of_97510_2490)
qed

lemma three_years_roi:
  "roi three_years = Inr (Finite (538219773215049 / 137438953472))"
proof -
  have "net_profit three_years = 97510" "total_cost three_years = 2490"
    by (simp_all add: three_years_def initial_investment_def total_annual_cost_def
        total_years_def total_cost_def total_revenue_def net_profit_def)
  then show ?thesis by (simp add: roi_def percent_of_97510_2490)
qed




text \<open>
  Without a bound on the inputs, positivity alone does not make line 37 return a float.
\<close>

lemma huge_resale_overflows:
  "valid_input huge_resale" "roi huge_resale = Inl OverflowError"
proof -
  show "valid_input huge_resale" by (simp add: huge_resale_def valid_input_def)
  have t: "net_profit huge_resale = 2 ^ 1025 - 2" "total_cost huge_resale = 2"
    by (simp_all add: huge_resale_def initial_investment_def total_annual_cost_def
        total_years_def total_cost_def total_revenue_def net_profit_def)
  have "round64 (of_int (2 ^ 1025 - 2) / of_int 2) = None"
    using round64_overflowI [of "of_int (2 ^ 1025 - 2) / of_int 2" 1023 "2 ^ 53"] by simp
  then show "roi huge_resale = Inl OverflowError"
    by (simp add: roi_def t percent_of_def int_truediv_def)
qed

section \<open>The claims of the specification\<close>

text \<open>
  Claim C1. The totals of the summary are exact integer identities: \<open>total_cost\<close> is
  \<open>initial_investment\<close> plus \<open>annual_cost \<times> resale_year \<times> num_businesses\<close>, where
  \<open>initial_investment\<close> is \<open>num_businesses \<times> purchase_price\<close> and \<open>total_revenue\<close> is
  \<open>resale_value \<times> num_businesses\<close>. This holds for every input, valid or not.
\<close>

theorem total_cost_formula:
  "total_cost i = initial_investment i + annual_cost i * resale_year i * num_businesses i \<and>
   initial_investment i = num_businesses i * purchase_price i \<and>
   total_revenue i = resale_value i * num_businesses i"
  by (simp add: total_cost_def total_annual_cost_def total_years_def initial_investment_def
      total_revenue_def)

text \<open>
  Claim C2. For every valid input \<open>net_profit\<close> is exactly \<open>total_revenue - total_cost\<close>;
  on valid inputs of bounded size line 37 returns a finite float, and that float lies
  within floating-point tolerance of the exact value of
  \<open>net_profit / total_cost \<times> 100\<close>.
\<close>

theorem net_profit_and_roi:
  assumes "valid_input i"
  shows "net_profit i = total_revenue i - total_cost i \<and>
         (bounded_input i \<longrightarrow>
            (\<exists>f. roi i = Inr f \<and>
                 within_tolerance f (of_int (net_profit i) / of_int (total_cost i) * 100)))"
  using roi_returns [OF assms] by (simp add: net_profit_def)

theorem net_profit_and_roi_witness:
  "valid_input scenario_1 \<and> bounded_input scenario_1 \<and>
   net_profit scenario_1 = total_revenue scenario_1 - total_cost scenario_1 \<and>
   roi scenario_1 = Inr (Finite (6902510058579083 / 4398046511104)) \<and>
   within_tolerance (Finite (6902510058579083 / 4398046511104))
     (of_int (net_profit scenario_1) / of_int (total_cost scenario_1) * 100)"
  using net_profit_and_roi [OF scenario_1_valid(1)] scenario_1_valid scenario_1_roi
  by auto




text \<open>
  Claim C4. For every valid input the revenue column is zero in every row whose year is
  before \<open>resale_year\<close> and is \<open>total_revenue\<close> in the row of \<open>resale_year\<close>, which is the
  last row: a single lump-sum exit.
\<close>

theorem lump_sum_revenue:
  assumes "valid_input i"
  shows "(\<forall>k<length (years i).
            (years i ! k < resale_year i \<longrightarrow> revenue i ! k = 0) \<and>
            (years i ! k = resale_year i \<longrightarrow> revenue i ! k = total_revenue i)) \<and>
         last (years i) = resale_year i \<and> last (revenue i) = total_revenue i"
proof -
  have y: "0 < resale_year i" using assms by (simp add: valid_input_def)
  have rows: "\<forall>k<length (years i).
            (years i ! k < resale_year i \<longrightarrow> revenue i ! k = 0) \<and>
            (years i ! k = resale_year i \<longrightarrow> revenue i ! k = total_revenue i)"
    by (simp add: length_years nth_years nth_revenue)
  have ne: "years i \<noteq> []" "revenue i \<noteq> []"
    using y length_years [of i] length_revenue [of i] by auto
  have l: "nat (resale_year i) - 1 < nat (resale_year i)" using y by simp
  have il: "int (nat (resale_year i) - 1) + 1 = resale_year i" using y by simp
  have "years i ! (nat (resale_year i) - 1) = resale_year i"
    using nth_years [OF l] il by simp
  then have ly: "last (years i) = resale_year i"
    by (simp only: last_conv_nth [OF ne(1)] length_years)
  have "revenue i ! (nat (resale_year i) - 1) = total_revenue i"
    using nth_revenue [OF l] il by simp
  then have lr: "last (revenue i) = total_revenue i"
    by (simp only: last_conv_nth [OF ne(2)] length_revenue)
  show ?thesis using rows ly lr by simp
qed

theorem lump_sum_revenue_witness:
  "valid_input three_years \<and>
   revenue three_years ! 0 = 0 \<and> revenue three_years ! 1 = 0 \<and>
   revenue three_years ! 2 = total_revenue three_years \<and>
   last (revenue three_years) = total_revenue three_years"
proof -
  have y: "resale_year three_years = 3" by (simp add: three_years_def)
  from lump_sum_revenue [OF three_years_valid(1)]
  have "\<forall>k<3. ([1, 2, 3] ! k < (3::int) \<longrightarrow> revenue three_years ! k = 0) \<and>
          ([1, 2, 3] ! k = (3::int) \<longrightarrow> revenue three_years ! k = total_revenue three_years)"
    and l: "last (revenue three_years) = total_revenue three_years"
    by (simp_all add: three_years_columns(1) y)
  then have "revenue three_years ! 0 = 0" "revenue three_years ! 1 = 0"
    "revenue three_years ! 2 = total_revenue three_years"
    by (auto dest: spec [of _ 0] spec [of _ 1] spec [of _ 2])
  with l three_years_valid(1) show ?thesis by simp
qed

text \<open>
  Claim C5. For every valid input the table has exactly \<open>resale_year\<close> rows, the
  \<open>Year\<close> column is \<open>1, 2, \<dots>, resale_year\<close> without gaps, all five columns have that
  length, the integer entries of each row are \<open>spec_row\<close> of the inputs and the row's
  year, and the ROI entry is the ROI expression on that row's profit and cost: no row
  depends on another row. The data frame the script builds consists of these columns, and
  on valid inputs of bounded size the script does build it.
\<close>

theorem table_has_resale_year_rows:
  assumes "valid_input i"
  shows "int (length (years i)) = resale_year i \<and>
         years i = map (\<lambda>k. int k + 1) [0..<length (years i)] \<and>
         length (cumulative_costs i) = length (years i) \<and>
         length (revenue i) = length (years i) \<and>
         length (profit i) = length (years i) \<and>
         (\<forall>rs. roi_over_time i = Inr rs \<longrightarrow> length rs = length (years i)) \<and>
         (\<forall>k<length (years i).
            (years i ! k, cumulative_costs i ! k, revenue i ! k, profit i ! k)
              = spec_row i (int k + 1)) \<and>
         (\<forall>rs. roi_over_time i = Inr rs \<longrightarrow>
            (\<forall>k<length (years i).
               Inr (rs ! k) = (case spec_row i (int k + 1) of
                                 (y, c, r, p) \<Rightarrow> percent_of p c))) \<and>
         (\<forall>out. app i = Inr out \<longrightarrow>
            Year (out_df out) = years i \<and> Cumulative_Cost (out_df out) = cumulative_costs i \<and>
            Projected_Revenue (out_df out) = revenue i \<and> Net_Profit (out_df out) = profit i \<and>
            length (ROI_percent (out_df out)) = length (years i)) \<and>
         (bounded_input i \<longrightarrow> (\<exists>out. app i = Inr out))"
proof -
  have y: "0 < resale_year i" using assms by (simp add: valid_input_def)
  have 1: "int (length (years i)) = resale_year i" using y by (simp add: length_years)
  have 2: "years i = map (\<lambda>k. int k + 1) [0..<length (years i)]"
    by (rule nth_equalityI) (simp_all add: length_years nth_years)
  have 3: "\<forall>rs. roi_over_time i = Inr rs \<longrightarrow> length rs = length (years i)"
    by (simp add: roi_over_time_length length_years)
  have 4: "\<forall>k<length (years i).
            (years i ! k, cumulative_costs i ! k, revenue i ! k, profit i ! k)
              = spec_row i (int k + 1)"
  proof (intro allI impI)
    fix k assume "k < length (years i)"
    then have k: "k < nat (resale_year i)" by (simp add: length_years)
    then have "int k + 1 \<le> resale_year i" by simp
    then show "(years i ! k, cumulative_costs i ! k, revenue i ! k, profit i ! k)
              = spec_row i (int k + 1)"
      by (auto simp: nth_years [OF k] nth_cumulative_costs [OF k] nth_revenue [OF k]
          nth_profit [OF k] spec_row_def Let_def initial_investment_def total_revenue_def)
  qed
  have 8: "\<forall>rs. roi_over_time i = Inr rs \<longrightarrow>
            (\<forall>k<length (years i).
               Inr (rs ! k) = (case spec_row i (int k + 1) of
                                 (y, c, r, p) \<Rightarrow> percent_of p c))"
  proof (intro allI impI)
    fix rs k assume rs: "roi_over_time i = Inr rs" and "k < length (years i)"
    then have k: "k < nat (resale_year i)" and row:
      "(years i ! k, cumulative_costs i ! k, revenue i ! k, profit i ! k)
         = spec_row i (int k + 1)"
      using 4 by (simp_all add: length_years)
    have "Inr (rs ! k) = percent_of (profit i ! k) (cumulative_costs i ! k)"
      using roi_over_time_nth [OF rs k] by simp
    then show "Inr (rs ! k) = (case spec_row i (int k + 1) of
                                 (y, c, r, p) \<Rightarrow> percent_of p c)"
      by (simp add: row [symmetric])
  qed
  have 5: "\<forall>out. app i = Inr out \<longrightarrow>
            Year (out_df out) = years i \<and> Cumulative_Cost (out_df out) = cumulative_costs i \<and>
            Projected_Revenue (out_df out) = revenue i \<and> Net_Profit (out_df out) = profit i \<and>
            length (ROI_percent (out_df out)) = length (years i)"
    using app_Inr(8-12) 3 by metis
  have 6: "bounded_input i \<longrightarrow> (\<exists>out. app i = Inr out)"
    using app_returns [OF assms] by blast
  have 7: "length (cumulative_costs i) = length (years i)"
    "length (revenue i) = length (years i)" "length (profit i) = length (years i)"
    by (simp_all only: length_cumulative_costs length_revenue length_profit length_years)
  show ?thesis by (intro conjI) (rule 1 2 3 4 5 6 7 8)+
qed

theorem table_has_resale_year_rows_witness:
  "valid_input three_years \<and> bounded_input three_years \<and>
   int (length (years three_years)) = 3 \<and> years three_years = [1, 2, 3] \<and>
   (years three_years ! 1, cumulative_costs three_years ! 1, revenue three_years ! 1,
      profit three_years ! 1) = (2, 1990, 0, - 1990) \<and>
   (\<exists>out. app three_years = Inr out \<and> Year (out_df out) = [1, 2, 3] \<and>
      length (ROI_percent (out_df out)) = 3)"
proof -
  note t = table_has_resale_year_rows [OF three_years_valid(1)]
  have y: "resale_year three_years = 3" by (simp add: three_years_def)
  have len: "length (years three_years) = 3" by (simp add: three_years_columns(1))
  from t three_years_valid(2) obtain out where out: "app three_years = Inr out" by blast
  with t have "Year (out_df out) = years three_years"
    "length (ROI_percent (out_df out)) = length (years three_years)" by blast+
  with out have e: "\<exists>out. app three_years = Inr out \<and> Year (out_df out) = [1, 2, 3] \<and>
      length (ROI_percent (out_df out)) = 3"
    by (auto simp: three_years_columns(1))
  from t have 1: "int (length (years three_years)) = 3" by (simp only: y)
  from t have rows: "\<forall>k<length (years three_years).
      (years three_years ! k, cumulative_costs three_years ! k, revenue three_years ! k,
         profit three_years ! k) = spec_row three_years (int k + 1)"
    by blast
  have "1 < length (years three_years)" by (simp add: len)
  with rows have "(years three_years ! 1, cumulative_costs three_years ! 1,
      revenue three_years ! 1, profit three_years ! 1) = spec_row three_years (int 1 + 1)"
    by blast
  also have "spec_row three_years (int 1 + 1) = (2, 1990, 0, - 1990)"
    by (simp add: spec_row_def three_years_def)
  finally have 2: "(years three_years ! 1, cumulative_costs three_years ! 1,
      revenue three_years ! 1, profit three_years ! 1) = (2, 1990, 0, - 1990)" .
  show ?thesis
    by (intro conjI) (rule 1 2 e three_years_valid three_years_columns(1))+
qed

text \<open>
  Claim C6. For every valid input and every row, the cumulative cost is
  \<open>initial_investment + year \<times> annual_cost \<times> num_businesses\<close>, the net profit is the
  row's revenue minus its cumulative cost, and the ROI entry is the value of the Python
  expression \<^verbatim>\<open>(profit / cumulative_cost) * 100\<close> on these two integers. On valid inputs of
  bounded size line 61 returns the column, and every entry lies within floating-point
  tolerance of the exact quotient times 100.
\<close>

theorem yearly_row_formulas:
  assumes "valid_input i"
  shows "(\<forall>k<length (years i).
            cumulative_costs i ! k =
              initial_investment i + years i ! k * annual_cost i * num_businesses i \<and>
            profit i ! k = revenue i ! k - cumulative_costs i ! k \<and>
            (\<forall>rs. roi_over_time i = Inr rs \<longrightarrow>
               Inr (rs ! k) = percent_of (profit i ! k) (cumulative_costs i ! k))) \<and>
         (bounded_input i \<longrightarrow>
            (\<exists>rs. roi_over_time i = Inr rs \<and>
               (\<forall>k<length (years i).
                  within_tolerance (rs ! k)
                    (of_int (profit i ! k) / of_int (cumulative_costs i ! k) * 100))))"
proof (intro conjI impI allI)
  fix k assume "k < length (years i)"
  then have k: "k < nat (resale_year i)" by (simp add: length_years)
  show "cumulative_costs i ! k =
          initial_investment i + years i ! k * annual_cost i * num_businesses i"
    by (simp add: nth_cumulative_costs [OF k] nth_years [OF k])
  show "profit i ! k = revenue i ! k - cumulative_costs i ! k" by (rule nth_profit [OF k])
  fix rs assume "roi_over_time i = Inr rs"
  from roi_over_time_nth [OF this k]
  show "Inr (rs ! k) = percent_of (profit i ! k) (cumulative_costs i ! k)" by simp
next
  assume b: "bounded_input i"
  obtain rs where rs: "roi_over_time i = Inr rs" using roi_over_time_returns [OF assms b] by blast
  have "\<forall>k<length (years i).
          within_tolerance (rs ! k) (of_int (profit i ! k) / of_int (cumulative_costs i ! k) * 100)"
  proof (intro allI impI)
    fix k assume "k < length (years i)"
    then have k: "k < nat (resale_year i)" by (simp add: length_years)
    from row_roi_returns [OF assms b k] roi_over_time_nth [OF rs k]
    show "within_tolerance (rs ! k)
            (of_int (profit i ! k) / of_int (cumulative_costs i ! k) * 100)" by auto
  qed
  with rs show "\<exists>rs. roi_over_time i = Inr rs \<and>
               (\<forall>k<length (years i).
                  within_tolerance (rs ! k)
                    (of_int (profit i ! k) / of_int (cumulative_costs i ! k) * 100))" by blast
qed

theorem yearly_row_formulas_witness:
  "valid_input three_years \<and> bounded_input three_years \<and>
   cumulative_costs three_years ! 1 = initial_investment three_years + 2 * 50 * 10 \<and>
   profit three_years ! 1 = revenue three_years ! 1 - cumulative_costs three_years ! 1 \<and>
   roi_over_time three_years =
     Inr [Finite (- 100), Finite (- 100), Finite (538219773215049 / 137438953472)] \<and>
   Inr (Finite (- 100)) = percent_of (profit three_years ! 1) (cumulative_costs three_years ! 1) \<and>
   within_tolerance (Finite (538219773215049 / 137438953472))
     (of_int (profit three_years ! 2) / of_int (cumulative_costs three_years ! 2) * 100)"
proof -
  let ?rs = "[Finite (- 100), Finite (- 100), Finite (538219773215049 / 137438953472)]"
  note t = yearly_row_formulas [OF three_years_valid(1)]
  have k: "1 < length (years three_years)" "2 < length (years three_years)"
    by (simp_all add: three_years_columns(1))
  have i: "years three_years ! 1 = 2" "annual_cost three_years = 50"
    "num_businesses three_years = 10"
    by (simp_all add: three_years_columns(1)) (simp_all add: three_years_def)
  from t k(1) have 1: "cumulative_costs three_years ! 1 =
      initial_investment three_years + years three_years ! 1 * annual_cost three_years *
        num_businesses three_years"
    and 2: "profit three_years ! 1 = revenue three_years ! 1 - cumulative_costs three_years ! 1"
    and 3: "\<forall>rs. roi_over_time three_years = Inr rs \<longrightarrow>
              Inr (rs ! 1) = percent_of (profit three_years ! 1) (cumulative_costs three_years ! 1)"
    by blast+
  from 3 three_years_roi_over_time
  have "Inr (?rs ! 1) = percent_of (profit three_years ! 1) (cumulative_costs three_years ! 1)"
    by blast
  then have c3: "Inr (Finite (- 100)) =
      percent_of (profit three_years ! 1) (cumulative_costs three_years ! 1)"
    by simp
  from t three_years_valid(2) obtain rs where rs: "roi_over_time three_years = Inr rs"
    "\<forall>k<length (years three_years). within_tolerance (rs ! k)
        (of_int (profit three_years ! k) / of_int (cumulative_costs three_years ! k) * 100)"
    by blast
  from rs(1) three_years_roi_over_time have "rs = ?rs" by simp
  with rs(2) k(2) have "within_tolerance (?rs ! 2)
     (of_int (profit three_years ! 2) / of_int (cumulative_costs three_years ! 2) * 100)"
    by blast
  then have c4: "within_tolerance (Finite (538219773215049 / 137438953472))
     (of_int (profit three_years ! 2) / of_int (cumulative_costs three_years ! 2) * 100)"
    by simp
  from 1 have c1: "cumulative_costs three_years ! 1 = initial_investment three_years + 2 * 50 * 10"
    by (simp only: i)
  show ?thesis
    by (intro conjI) (rule c1 2 c3 c4 three_years_valid three_years_roi_over_time)+
qed

text \<open>
  Claim C7. Whenever \<open>annual_cost \<times> num_businesses\<close> is positive, as it is on every valid
  input, the cumulative cost column is strictly increasing from each row to the next.
\<close>

theorem increasing_cumulative_cost:
  assumes "0 < annual_cost i * num_businesses i"
  shows "\<forall>k. Suc k < length (cumulative_costs i) \<longrightarrow>
           cumulative_costs i ! k < cumulative_costs i ! Suc k"
proof (intro allI impI)
  fix k assume "Suc k < length (cumulative_costs i)"
  then have k: "Suc k < nat (resale_year i)" "k < nat (resale_year i)"
    by (simp_all add: length_cumulative_costs)
  have "cumulative_costs i ! Suc k - cumulative_costs i ! k = annual_cost i * num_businesses i"
    by (simp add: nth_cumulative_costs [OF k(1)] nth_cumulative_costs [OF k(2)] algebra_simps)
  with assms show "cumulative_costs i ! k < cumulative_costs i ! Suc k" by linarith
qed

theorem increasing_cumulative_cost_witness:
  "0 < annual_cost three_years * num_businesses three_years \<and>
   cumulative_costs three_years ! 0 < cumulative_costs three_years ! 1 \<and>
   cumulative_costs three_years ! 1 < cumulative_costs three_years ! 2"
proof -
  have p: "0 < annual_cost three_years * num_businesses three_years"
    by (simp add: three_years_def)
  have len: "length (cumulative_costs three_years) = 3" by (simp add: three_years_columns(2))
  from increasing_cumulative_cost [OF p]
  have "cumulative_costs three_years ! 0 < cumulative_costs three_years ! Suc 0"
    "cumulative_costs three_years ! 1 < cumulative_costs three_years ! Suc 1"
    by (simp_all add: len)
  with p show ?thesis by (simp add: numeral_2_eq_2)
qed

text \<open>
  Claim C8 gives, for the first concrete scenario, an ROI of about 1569.78 percent. The
  float the script computes is \<open>6902510058579083 / 2 ^ 42\<close>, about 1569.449, which is
  more than 0.33 away from 1569.78.
\<close>

theorem scenario_1_roi_is_not_1569_78:
  "roi scenario_1 = Inr (Finite (6902510058579083 / 4398046511104)) \<and>
   33 / 100 < \<bar>6902510058579083 / 4398046511104 - 156978 / (100::rat)\<bar>"
  by (simp add: scenario_1_roi)

text \<open>
  Claim C8 with the value the script computes. For \<open>num_businesses = 10\<close>,
  \<open>purchase_price = 99\<close>, \<open>annual_cost = 50\<close>, \<open>resale_value = 10000\<close> and
  \<open>resale_year = 10\<close> the totals are 990, 5000, 5990, 100000 and 94010; the ROI and the
  ROI per business are the same float, which is 1569.45 to two decimal places and lies
  within floating-point tolerance of \<open>(10000 - (99 + 500)) / (99 + 500) \<times> 100\<close>.
\<close>

theorem scenario_1_values:
  "initial_investment scenario_1 = 990 \<and> total_annual_cost scenario_1 = 5000 \<and>
   total_cost scenario_1 = 5990 \<and> total_revenue scenario_1 = 100000 \<and>
   net_profit scenario_1 = 94010 \<and>
   roi scenario_1 = Inr (Finite (6902510058579083 / 4398046511104)) \<and>
   roi_per_business scenario_1 = Inr (Finite (6902510058579083 / 4398046511104)) \<and>
   \<bar>6902510058579083 / 4398046511104 - 156945 / (100::rat)\<bar> < 5 / 1000 \<and>
   within_tolerance (Finite (6902510058579083 / 4398046511104))
     ((10000 - (99 + 500)) / (99 + 500) * 100)"
proof -
  have "num_businesses scenario_1 \<noteq> 0" by (simp add: scenario_1_def)
  then have "roi_per_business scenario_1 = Inr (Finite (6902510058579083 / 4398046511104))"
    using roi_eq_roi_per_business [of scenario_1] scenario_1_roi by simp
  then show ?thesis
    by (simp add: scenario_1_totals scenario_1_roi within_tolerance_def)
qed

text \<open>
  Claim C9. For every valid input the ROI of the summary and the ROI per business are
  equal: the exact quotients are the same rational number, since \<open>total_cost\<close> and
  \<open>net_profit\<close> are \<open>num_businesses\<close> times the per-business cost and profit, and
  therefore lines 37 and 38 yield the same result, float for float. On valid inputs of
  bounded size that result is a float.
\<close>

theorem roi_equals_roi_per_business:
  assumes "valid_input i"
  shows "roi i = roi_per_business i \<and>
         (of_int (net_profit i) / of_int (total_cost i) * 100 :: rat) =
           of_int (resale_value i - (purchase_price i + annual_cost i * resale_year i)) /
           of_int (purchase_price i + annual_cost i * resale_year i) * 100 \<and>
         (bounded_input i \<longrightarrow> (\<exists>f. roi i = Inr f \<and> roi_per_business i = Inr f))"
proof -
  have n: "num_businesses i \<noteq> 0" using assms by (simp add: valid_input_def)
  have 1: "roi i = roi_per_business i" by (rule roi_eq_roi_per_business [OF n])
  have 2: "(of_int (net_profit i) / of_int (total_cost i) * 100 :: rat) =
           of_int (resale_value i - (purchase_price i + annual_cost i * resale_year i)) /
           of_int (purchase_price i + annual_cost i * resale_year i) * 100"
    using n by (simp add: per_business_scaled)
  have 3: "bounded_input i \<longrightarrow> (\<exists>f. roi i = Inr f \<and> roi_per_business i = Inr f)"
    using roi_returns [OF assms] 1 by auto
  show ?thesis using 1 2 3 by blast
qed

theorem roi_equals_roi_per_business_witness:
  "valid_input scenario_1 \<and> bounded_input scenario_1 \<and>
   roi scenario_1 = Inr (Finite (6902510058579083 / 4398046511104)) \<and>
   roi_per_business scenario_1 = Inr (Finite (6902510058579083 / 4398046511104))"
proof -
  from roi_equals_roi_per_business [OF scenario_1_valid(1)]
  have "roi scenario_1 = roi_per_business scenario_1" by blast
  then have "roi_per_business scenario_1 = Inr (Finite (6902510058579083 / 4398046511104))"
    by (simp only: scenario_1_roi [symmetric])
  then show ?thesis
    by (intro conjI) (rule scenario_1_valid scenario_1_roi | assumption)+
qed

text \<open>
  Claim C10. For every valid input the row of the final year coincides with the summary:
  its year is \<open>resale_year\<close>, its cumulative cost is \<open>total_cost\<close>, its net profit is
  \<open>net_profit\<close>, the exact quotients agree, and whenever line 61 returns, the ROI entry of
  that row is the very float of the summary ROI. On valid inputs of bounded size line 61
  returns.
\<close>

theorem final_year_matches_summary:
  assumes "valid_input i"
  shows "years i ! (nat (resale_year i) - 1) = resale_year i \<and>
         cumulative_costs i ! (nat (resale_year i) - 1) = total_cost i \<and>
         profit i ! (nat (resale_year i) - 1) = net_profit i \<and>
         (of_int (profit i ! (nat (resale_year i) - 1)) /
            of_int (cumulative_costs i ! (nat (resale_year i) - 1)) * 100 :: rat) =
           of_int (net_profit i) / of_int (total_cost i) * 100 \<and>
         (\<forall>rs. roi_over_time i = Inr rs \<longrightarrow> roi i = Inr (rs ! (nat (resale_year i) - 1))) \<and>
         (bounded_input i \<longrightarrow> (\<exists>rs. roi_over_time i = Inr rs))"
proof -
  define l where "l = nat (resale_year i) - 1"
  have y: "0 < resale_year i" using assms by (simp add: valid_input_def)
  then have l: "l < nat (resale_year i)" by (simp add: l_def)
  have il: "int l + 1 = resale_year i" using y by (simp add: l_def)
  have 1: "years i ! l = resale_year i" using nth_years [OF l] il by simp
  have 2: "cumulative_costs i ! l = total_cost i"
    by (simp only: nth_cumulative_costs [OF l] il total_cost_eq)
  have "revenue i ! l = total_revenue i" using nth_revenue [OF l] il by simp
  then have 3: "profit i ! l = net_profit i"
    by (simp add: nth_profit [OF l] 2 net_profit_def)
  have 4: "\<forall>rs. roi_over_time i = Inr rs \<longrightarrow> roi i = Inr (rs ! l)"
    using roi_over_time_nth [OF _ l] by (simp add: 2 3 roi_def)
  have 5: "bounded_input i \<longrightarrow> (\<exists>rs. roi_over_time i = Inr rs)"
    using roi_over_time_returns [OF assms] by blast
  show ?thesis unfolding l_def [symmetric] using 1 4 5 by (simp add: 2 3)
qed

theorem final_year_matches_summary_witness:
  "valid_input three_years \<and> bounded_input three_years \<and>
   years three_years ! 2 = resale_year three_years \<and>
   cumulative_costs three_years ! 2 = total_cost three_years \<and>
   profit three_years ! 2 = net_profit three_years \<and>
   roi_over_time three_years =
     Inr [Finite (- 100), Finite (- 100), Finite (538219773215049 / 137438953472)] \<and>
   roi three_years = Inr (Finite (538219773215049 / 137438953472))"
proof -
  let ?rs = "[Finite (- 100), Finite (- 100), Finite (538219773215049 / 137438953472)]"
  have l: "nat (resale_year three_years) - 1 = 2" by (simp add: three_years_def)
  note f = final_year_matches_summary [OF three_years_valid(1), unfolded l]
  from f have 1: "years three_years ! 2 = resale_year three_years"
    and 2: "cumulative_costs three_years ! 2 = total_cost three_years"
    and 3: "profit three_years ! 2 = net_profit three_years"
    and 4: "\<forall>rs. roi_over_time three_years = Inr rs \<longrightarrow> roi three_years = Inr (rs ! 2)"
    by blast+
  from 4 three_years_roi_over_time have "roi three_years = Inr (?rs ! 2)" by blast
  then have 5: "roi three_years = Inr (Finite (538219773215049 / 137438953472))" by simp
  show ?thesis
    by (intro conjI) (rule 1 2 3 5 three_years_valid three_years_roi_over_time)+
qed

end
